theory Spec2Isabelle
  imports Complex_Main "HOL-Library.AList"
begin

section \<open>Feature selection by binomial deviance: the notebook's top-K selection\<close>

text \<open>
  The executable logic of \<^verbatim>\<open>feature_selection.ipynb\<close> is cell \<^verbatim>\<open>e349f348\<close>:
  \<^verbatim>\<open>
  idx = binomial_deviance.argsort()[-4000:]
  mask = np.zeros(adata.var_names.shape, dtype=bool)
  mask[idx] = True

  adata.var["highly_deviant"] = mask
  adata.var["binomial_deviance"] = binomial_deviance
  \<close>
  The specification calls the first three lines \<open>select_top_k(scores, k)\<close>, with the
  literal \<open>4000\<close> as the parameter \<open>k\<close>. The scores are modelled as reals (without NaN
  or rounding) and \<open>k\<close> as a Python integer. The array \<open>mask\<close> is written \<open>msk\<close> below, since \<open>mask\<close> is a
  constant of the library.
\<close>

subsection \<open>Errors\<close>

datatype error = IndexError | ValueError | RRuntimeError

subsection \<open>Slicing: \<^verbatim>\<open>a[s:]\<close>\<close>

text \<open>
  Python and numpy clamp the start of a slice: a negative start counts from the end and
  stops at the first element, a non-negative start stops at the length. Since
  \<open>-0 = 0\<close>, the slice \<^verbatim>\<open>a[-0:]\<close> is the whole array.
\<close>

definition slice_start :: "int \<Rightarrow> nat \<Rightarrow> nat" where
  "slice_start s n = nat (if s < 0 then max (s + int n) 0 else min s (int n))"

definition slice_from :: "int \<Rightarrow> 'a list \<Rightarrow> 'a list" where
  "slice_from s xs = drop (slice_start s (length xs)) xs"

subsection \<open>Index assignment: \<^verbatim>\<open>mask[idx] = True\<close>\<close>

text \<open>
  Assignment through an index array sets every listed position; an index outside the
  array raises \<open>IndexError\<close>. The indices come from \<open>argsort\<close> and are never negative.
\<close>

fun set_true :: "bool list \<Rightarrow> nat list \<Rightarrow> error + bool list" where
  "set_true msk [] = Inr msk"
| "set_true msk (i # idx) =
     (if i < length msk then set_true (msk[i := True]) idx else Inl IndexError)"

subsection \<open>\<^verbatim>\<open>argsort()\<close>\<close>

text \<open>
  \<^verbatim>\<open>ndarray.argsort()\<close> is numpy's routine, called with its default \<open>kind\<close>. Its
  code is not part of the notebook, so it is a parameter of the model: any function
  \<open>argsort\<close> from the array to a list of indices. What numpy promises of its result
  is \<open>is_argsort\<close>: the result lists every index once and reads the array in ascending
  order. The order it gives to equal elements is left open.
\<close>

definition is_argsort :: "real list \<Rightarrow> nat list \<Rightarrow> bool" where
  "is_argsort a idx \<longleftrightarrow>
     length idx = length a \<and> distinct idx \<and> list_all (\<lambda>i. i < length a) idx \<and>
     sorted (map (\<lambda>i. a ! i) idx)"

text \<open>
  \<open>stable_argsort\<close>, the library's insertion sort on the indices, is one function that
  meets this contract on every array. It stands for the routine where the model is run
  on a concrete input; the theorems hold for every function that meets the contract.
\<close>

definition stable_argsort :: "real list \<Rightarrow> nat list" where
  "stable_argsort a = sort_key (\<lambda>i. a ! i) [0..<length a]"

subsection \<open>\<open>select_top_k\<close>: the first three lines of the cell\<close>

text \<open>
  \<open>top_k_mask n perm k\<close> is the mask of length \<open>n\<close> built from the output \<open>perm\<close>
  of \<open>argsort()\<close>; in the notebook \<open>n\<close> is the number of genes of \<open>adata\<close>.
\<close>

definition top_k_mask :: "nat \<Rightarrow> nat list \<Rightarrow> int \<Rightarrow> error + bool list" where
  "top_k_mask n perm k =
     (let idx = slice_from (- k) perm;
          msk = replicate n False
      in set_true msk idx)"

definition select_top_k ::
  "(real list \<Rightarrow> nat list) \<Rightarrow> real list \<Rightarrow> int \<Rightarrow> error + bool list" where
  "select_top_k argsort scores k = top_k_mask (length scores) (argsort scores) k"

subsection \<open>The annotated matrix and the whole cell\<close>

text \<open>
  \<open>adata\<close> is an AnnData object: the count matrix \<open>X\<close> (cells by genes), the names of
  its rows and columns, and one table of metadata for the cells (\<open>obs\<close>) and one for the
  genes (\<open>var\<close>). A table is a list of named columns in their order. Assigning
  \<^verbatim>\<open>df[name] = values\<close> replaces the column of that name where it stands, or adds
  a last column when the name is new, which is \<open>AList.update\<close>; values of another length
  than the table raise \<open>ValueError\<close>.
\<close>

datatype column = BoolColumn "bool list" | FloatColumn "real list" | StrColumn "string list"

fun column_length :: "column \<Rightarrow> nat" where
  "column_length (BoolColumn bs) = length bs"
| "column_length (FloatColumn xs) = length xs"
| "column_length (StrColumn ss) = length ss"

type_synonym dataframe = "(string \<times> column) list"

record anndata =
  X :: "int list list"
  obs_names :: "string list"
  var_names :: "string list"
  obs :: dataframe
  var :: dataframe
  layers :: "(string \<times> real list list) list"

definition set_column :: "nat \<Rightarrow> dataframe \<Rightarrow> string \<Rightarrow> column \<Rightarrow> error + dataframe" where
  "set_column nrows df name col =
     (if column_length col = nrows then Inr (AList.update name col df) else Inl ValueError)"

text \<open>
  The notebook from the loaded \<open>adata\<close> to the \<open>adata\<close> it writes. The deviance is
  computed by the R package scry on a copy of \<open>adata\<close> (cells \<^verbatim>\<open>df540648\<close> to
  \<^verbatim>\<open>69ff1f65\<close>); that routine, \<open>rank\<close> in the specification, is the parameter
  \<open>devianceFeatureSelection\<close>, which returns the vector \<open>binomial_deviance\<close> or fails
  in R. Python passes it a converted copy, so it cannot change \<open>adata\<close>.
\<close>

definition feature_selection ::
  "(real list \<Rightarrow> nat list) \<Rightarrow> (anndata \<Rightarrow> error + real list) \<Rightarrow> int \<Rightarrow> anndata \<Rightarrow>
     error + anndata" where
  "feature_selection argsort devianceFeatureSelection k adata =
     (case devianceFeatureSelection adata of
        Inl e \<Rightarrow> Inl e
      | Inr binomial_deviance \<Rightarrow>
     (case top_k_mask (length (var_names adata)) (argsort binomial_deviance) k of
        Inl e \<Rightarrow> Inl e
      | Inr msk \<Rightarrow>
     (case set_column (length (var_names adata)) (var adata)
             ''highly_deviant'' (BoolColumn msk) of
        Inl e \<Rightarrow> Inl e
      | Inr var1 \<Rightarrow>
     (case set_column (length (var_names adata)) var1
             ''binomial_deviance'' (FloatColumn binomial_deviance) of
        Inl e \<Rightarrow> Inl e
      | Inr var2 \<Rightarrow> Inr (adata\<lparr>var := var2\<rparr>)))))"

subsection \<open>Example inputs\<close>

text \<open>
  A small annotated matrix (three cells, two genes), a deviance vector for it, and the
  same matrix with a \<open>highly_deviant\<close> column already in \<open>var\<close>.
\<close>

definition example_adata :: anndata where
  "example_adata =
     \<lparr>X = [[1, 0], [0, 5], [9, 0]], obs_names = [''c0'', ''c1'', ''c2''],
      var_names = [''g0'', ''g1''], obs = [(''n_genes'', FloatColumn [1, 1, 1])],
      var = [(''n_cells'', FloatColumn [2, 1])], layers = []\<rparr>"

definition example_deviance :: "anndata \<Rightarrow> error + real list" where
  "example_deviance adata = Inr [1 / 2, 3]"

definition flagged_adata :: anndata where
  "flagged_adata = example_adata\<lparr>var :=
     [(''n_cells'', FloatColumn [2, 1]), (''highly_deviant'', BoolColumn [False, False])]\<rparr>"

section \<open>Properties of the mask\<close>

subsection \<open>What the mask is\<close>

lemma set_true_in_range:
  "\<forall>i \<in> set idx. i < length msk \<Longrightarrow>
   set_true msk idx = Inr (map (\<lambda>i. msk ! i \<or> i \<in> set idx) [0..<length msk])"
proof (induction idx arbitrary: msk)
  case Nil
  show ?case by (simp add: map_nth)
next
  case (Cons i idx)
  have "set_true (msk[i := True]) idx =
        Inr (map (\<lambda>j. msk[i := True] ! j \<or> j \<in> set idx) [0..<length (msk[i := True])])"
    using Cons.prems by (intro Cons.IH) simp
  moreover have "map (\<lambda>j. msk[i := True] ! j \<or> j \<in> set idx) [0..<length msk] =
                 map (\<lambda>j. msk ! j \<or> j \<in> set (i # idx)) [0..<length msk]"
    using Cons.prems by (intro map_cong) (auto simp: nth_list_update)
  ultimately show ?case using Cons.prems by simp
qed

lemma top_k_mask_in_range:
  assumes "\<forall>i \<in> set perm. i < n"
  shows "top_k_mask n perm k =
         Inr (map (\<lambda>i. i \<in> set (drop (slice_start (- k) (length perm)) perm)) [0..<n])"
proof -
  have "\<forall>i \<in> set (slice_from (- k) perm). i < length (replicate n False)"
    using assms by (auto simp: slice_from_def dest: in_set_dropD)
  from set_true_in_range [OF this] show ?thesis
    by (simp add: top_k_mask_def slice_from_def cong: map_cong)
qed

lemma is_argsort_set: "is_argsort a idx \<Longrightarrow> set idx = {0..<length a}"
proof -
  assume h: "is_argsort a idx"
  then have sub: "set idx \<subseteq> {0..<length a}"
    by (auto simp: is_argsort_def list_all_iff)
  have "card (set idx) = length a"
    using h by (simp add: is_argsort_def distinct_card)
  then show ?thesis
    using sub by (simp add: card_subset_eq)
qed

lemma select_top_k_eq:
  assumes "is_argsort scores (argsort scores)"
  shows "select_top_k argsort scores k =
         Inr (map (\<lambda>i. i \<in> set (drop (slice_start (- k) (length scores)) (argsort scores)))
                [0..<length scores])"
proof -
  have len: "length (argsort scores) = length scores"
    using assms by (simp add: is_argsort_def)
  have "\<forall>i \<in> set (argsort scores). i < length scores"
    using is_argsort_set [OF assms] by simp
  from top_k_mask_in_range [OF this] show ?thesis
    by (simp add: select_top_k_def len)
qed


lemma sorted_suffix_upward:
  assumes "sorted (map f xs)" and "i \<in> set (drop m xs)" and "j \<in> set xs" and "f i < f j"
  shows "j \<in> set (drop m xs)"
proof (rule ccontr)
  assume "j \<notin> set (drop m xs)"
  moreover have "set xs = set (take m xs) \<union> set (drop m xs)"
    by (metis append_take_drop_id set_append)
  ultimately have j: "j \<in> set (take m xs)" using assms(3) by blast
  have "sorted (map f (take m xs) @ map f (drop m xs))"
    using assms(1) by (metis append_take_drop_id map_append)
  then have "f j \<le> f i"
    using j assms(2) by (auto simp: sorted_append)
  then show False using assms(4) by simp
qed

section \<open>The contract of \<open>argsort\<close> can be met\<close>


section \<open>Table updates\<close>

lemma update_fresh: "k \<notin> fst ` set al \<Longrightarrow> AList.update k v al = al @ [(k, v)]"
  by (induction al) auto

section \<open>The claims\<close>





text \<open>
  C4. If \<open>k\<close> exceeds the length of the score vector, \<open>select_top_k\<close> selects all
  genes: the mask is true at every index.
\<close>

theorem select_top_k_all:
  assumes "is_argsort scores (argsort scores)" and "int (length scores) < k"
  shows "select_top_k argsort scores k = Inr (replicate (length scores) True)"
proof -
  have "slice_start (- k) (length scores) = 0"
    using assms(2) by (simp add: slice_start_def)
  then have "select_top_k argsort scores k =
             Inr (map (\<lambda>i. i \<in> set (argsort scores)) [0..<length scores])"
    by (simp add: select_top_k_eq [where argsort = argsort, OF assms(1)])
  also have "map (\<lambda>i. i \<in> set (argsort scores)) [0..<length scores] =
             map (\<lambda>i. True) [0..<length scores]"
    by (rule map_cong) (simp_all add: is_argsort_set [OF assms(1)])
  finally show ?thesis by (simp add: map_replicate_const)
qed

theorem select_top_k_all_witness:
  "is_argsort [3, 1, 2] (stable_argsort [3, 1, 2]) \<and> int (length [3, 1, 2 :: real]) < 4000 \<and>
   select_top_k stable_argsort [3, 1, 2] 4000 = Inr (replicate (length [3, 1, 2 :: real]) True)"
proof -
  have h1: "is_argsort [3, 1, 2] (stable_argsort [3, 1, 2])" by code_simp
  have h2: "int (length [3, 1, 2 :: real]) < 4000" by simp
  show ?thesis using h1 h2 select_top_k_all [where argsort = stable_argsort, OF h1 h2] by blast
qed

text \<open>
  C10. The selection never skips a strictly better gene: for every \<open>k\<close>, if gene \<open>i\<close>
  is marked and gene \<open>j\<close> has a strictly greater score, then gene \<open>j\<close> is marked,
  whatever order \<open>argsort\<close> gives to equal scores.
\<close>

theorem select_top_k_no_skip:
  assumes "is_argsort scores (argsort scores)"
  shows "\<exists>msk. select_top_k argsort scores k = Inr msk \<and> length msk = length scores \<and>
           (\<forall>i < length scores. \<forall>j < length scores.
              msk ! i \<and> scores ! i < scores ! j \<longrightarrow> msk ! j)"
proof -
  let ?n = "length scores" and ?p = "argsort scores"
  let ?m = "slice_start (- k) ?n"
  have asc: "sorted (map (\<lambda>i. scores ! i) ?p)"
    using assms by (simp add: is_argsort_def)
  have "j \<in> set (drop ?m ?p)"
    if "i \<in> set (drop ?m ?p)" "j < ?n" "scores ! i < scores ! j" for i j
    using sorted_suffix_upward [OF asc that(1) _ that(3)] that(2) is_argsort_set [OF assms]
    by simp
  then show ?thesis
    by (auto simp: select_top_k_eq [where argsort = argsort, OF assms])
qed

theorem select_top_k_no_skip_witness:
  "is_argsort [3, 1, 3, 2] (stable_argsort [3, 1, 3, 2]) \<and>
   (\<exists>msk. select_top_k stable_argsort [3, 1, 3, 2] 1 = Inr msk \<and> length msk = length [3, 1, 3, 2 :: real] \<and>
      (\<forall>i < length [3, 1, 3, 2 :: real]. \<forall>j < length [3, 1, 3, 2 :: real].
         msk ! i \<and> [3, 1, 3, 2 :: real] ! i < [3, 1, 3, 2] ! j \<longrightarrow> msk ! j)) \<and>
   select_top_k stable_argsort [3, 1, 3, 2] 1 = Inr [False, False, True, False]"
proof -
  have h1: "is_argsort [3, 1, 3, 2] (stable_argsort [3, 1, 3, 2])" by code_simp
  have v: "select_top_k stable_argsort [3, 1, 3, 2] 1 = Inr [False, False, True, False]"
    by code_simp
  show ?thesis using h1 v select_top_k_no_skip [where argsort = stable_argsort, OF h1] by blast
qed

text \<open>
  C5, as amended. When \<open>var\<close> has no column named \<open>highly_deviant\<close> or
  \<open>binomial_deviance\<close> yet, a run of the notebook that succeeds leaves the count matrix
  and every other field of \<open>adata\<close> as they were and appends exactly two columns to
  \<open>var\<close>: the boolean mask and the numeric deviance.
\<close>

theorem feature_selection_frame:
  assumes "feature_selection argsort devianceFeatureSelection k adata = Inr adata'"
    and "''highly_deviant'' \<notin> fst ` set (var adata)"
    and "''binomial_deviance'' \<notin> fst ` set (var adata)"
  shows "\<exists>binomial_deviance msk.
           devianceFeatureSelection adata = Inr binomial_deviance \<and>
           top_k_mask (length (var_names adata)) (argsort binomial_deviance) k = Inr msk \<and>
           adata' = adata\<lparr>var := var adata @
             [(''highly_deviant'', BoolColumn msk),
              (''binomial_deviance'', FloatColumn binomial_deviance)]\<rparr> \<and>
           X adata' = X adata"
proof -
  from assms(1) obtain bd msk var1 var2 where
    bd: "devianceFeatureSelection adata = Inr bd" and
    msk: "top_k_mask (length (var_names adata)) (argsort bd) k = Inr msk" and
    v1: "set_column (length (var_names adata)) (var adata) ''highly_deviant'' (BoolColumn msk) = Inr var1" and
    v2: "set_column (length (var_names adata)) var1 ''binomial_deviance'' (FloatColumn bd) = Inr var2" and
    res: "adata' = adata\<lparr>var := var2\<rparr>"
    by (auto simp: feature_selection_def split: sum.splits)
  have "var1 = var adata @ [(''highly_deviant'', BoolColumn msk)]"
    using v1 assms(2) by (auto simp: set_column_def update_fresh split: if_splits)
  moreover have "''binomial_deviance'' \<notin> fst ` set (var adata @ [(''highly_deviant'', BoolColumn msk)])"
    using assms(3) by simp
  ultimately have "var2 = var adata @ [(''highly_deviant'', BoolColumn msk), (''binomial_deviance'', FloatColumn bd)]"
    using v2 by (auto simp: set_column_def update_fresh split: if_splits)
  then show ?thesis
    using bd msk res by simp
qed

theorem feature_selection_frame_witness:
  "feature_selection stable_argsort example_deviance 4000 example_adata =
     Inr (example_adata\<lparr>var := [(''n_cells'', FloatColumn [2, 1]),
        (''highly_deviant'', BoolColumn [True, True]),
        (''binomial_deviance'', FloatColumn [1 / 2, 3])]\<rparr>) \<and>
   ''highly_deviant'' \<notin> fst ` set (var example_adata) \<and>
   ''binomial_deviance'' \<notin> fst ` set (var example_adata) \<and>
   (\<exists>binomial_deviance msk.
      example_deviance example_adata = Inr binomial_deviance \<and>
      top_k_mask (length (var_names example_adata)) (stable_argsort binomial_deviance) 4000 = Inr msk \<and>
      example_adata\<lparr>var := [(''n_cells'', FloatColumn [2, 1]),
        (''highly_deviant'', BoolColumn [True, True]),
        (''binomial_deviance'', FloatColumn [1 / 2, 3])]\<rparr> =
      example_adata\<lparr>var := var example_adata @
        [(''highly_deviant'', BoolColumn msk),
         (''binomial_deviance'', FloatColumn binomial_deviance)]\<rparr> \<and>
      X (example_adata\<lparr>var := [(''n_cells'', FloatColumn [2, 1]),
        (''highly_deviant'', BoolColumn [True, True]),
        (''binomial_deviance'', FloatColumn [1 / 2, 3])]\<rparr>) = X example_adata)"
proof -
  have h1: "feature_selection stable_argsort example_deviance 4000 example_adata =
     Inr (example_adata\<lparr>var := [(''n_cells'', FloatColumn [2, 1]),
        (''highly_deviant'', BoolColumn [True, True]),
        (''binomial_deviance'', FloatColumn [1 / 2, 3])]\<rparr>)"
    by code_simp
  have h2: "''highly_deviant'' \<notin> fst ` set (var example_adata)"
    by (simp add: example_adata_def)
  have h3: "''binomial_deviance'' \<notin> fst ` set (var example_adata)"
    by (simp add: example_adata_def)
  show ?thesis using h1 h2 h3 feature_selection_frame [OF h1 h2 h3] by blast
qed

text \<open>
  C5 as stated covers every input. On a matrix that already has a \<open>highly_deviant\<close>
  column, the assignment replaces that column: its values change and one column is
  added, not two.
\<close>

theorem feature_selection_frame_counterexample:
  "feature_selection stable_argsort example_deviance 4000 flagged_adata =
     Inr (flagged_adata\<lparr>var := [(''n_cells'', FloatColumn [2, 1]),
        (''highly_deviant'', BoolColumn [True, True]),
        (''binomial_deviance'', FloatColumn [1 / 2, 3])]\<rparr>) \<and>
   var flagged_adata =
     [(''n_cells'', FloatColumn [2, 1]), (''highly_deviant'', BoolColumn [False, False])] \<and>
   [(''n_cells'', FloatColumn [2, 1]), (''highly_deviant'', BoolColumn [True, True]),
    (''binomial_deviance'', FloatColumn [1 / 2, 3])] \<noteq>
   var flagged_adata @ [(''highly_deviant'', BoolColumn [True, True]),
                      (''binomial_deviance'', FloatColumn [1 / 2, 3])]"
  by code_simp

end
